theory Spec2Isabelle
  imports Main "HOL-Library.Sublist" "HOL-Library.Word"
begin

section \<open>Data model\<close>

text \<open>
  Modelled from the spec: the enumeration \<^verbatim>\<open>MachineStatus\<close>. Its file
  \<^verbatim>\<open>src/enums/MachineStatus.ts\<close> is not among the sources, which only import it; the
  specification gives the closed enumeration Idle, Running, Offline, serialised as the
  strings "Idle", "Running", "Offline", and \<^verbatim>\<open>README.md\<close> lists the file as
  \<^verbatim>\<open>export enum MachineStatus { Idle = 'Idle', Running = 'Running', Offline = 'Offline' }\<close>.
\<close>

datatype MachineStatus = Idle | Running | Offline

text \<open>
  A string of the language is a sequence of UTF-16 code units. The names of the records,
  the text of the form and the search text go through \<^verbatim>\<open>toLowerCase\<close>, \<^verbatim>\<open>includes\<close> and
  \<^verbatim>\<open>trim\<close>, which work on the code units: they are lists of 16-bit words. Ids, keys,
  stored texts, messages and the strings of JSON values are only compared with each other
  and tested for emptiness: they are lists of characters. \<open>units\<close> gives the code units
  of a text of characters U+0000 to U+00FF.
\<close>

type_synonym jsstring = "16 word list"

definition units :: "string \<Rightarrow> jsstring" where
  "units s = map of_char s"

text \<open>
  \<^verbatim>\<open>src/types/Machine.ts\<close>. The field \<^verbatim>\<open>id\<close> is named \<open>id_m\<close> here, since \<open>id\<close> is the
  identity function of HOL. A \<^verbatim>\<open>Date\<close> is its time value, an integer number of
  milliseconds.
\<close>

record Machine =
  id_m :: string
  name :: jsstring
  status :: MachineStatus
  lastUpdated :: int

text \<open>
  The undo buffer of \<^verbatim>\<open>useMachines\<close>:
  \<^verbatim>\<open>useState<{ machine: Machine; index: number } | null>(null)\<close>.
\<close>

record LastDeleted =
  machine :: Machine
  index :: int

text \<open>
  The state of the hook \<^verbatim>\<open>useMachines\<close>: the collection \<^verbatim>\<open>machines\<close> held by
  \<^verbatim>\<open>useLocalStorage\<close>, the undo buffer \<^verbatim>\<open>lastDeleted\<close>, and the browser's
  \<^verbatim>\<open>localStorage\<close>, a store of strings under string keys.
\<close>

record State =
  machines :: "Machine list"
  lastDeleted :: "LastDeleted option"
  localStorage :: "string \<rightharpoonup> string"

section \<open>Array operations of the language\<close>

text \<open>
  \<^verbatim>\<open>Array.prototype.findIndex\<close>: the index of the first element that satisfies the
  predicate, scanning from index 0 upwards, and \<open>-1\<close> when there is none.
\<close>

fun findIndex_from :: "('a \<Rightarrow> bool) \<Rightarrow> 'a list \<Rightarrow> int \<Rightarrow> int" where
  "findIndex_from P [] k = - 1"
| "findIndex_from P (x # xs) k = (if P x then k else findIndex_from P xs (k + 1))"

definition findIndex :: "('a \<Rightarrow> bool) \<Rightarrow> 'a list \<Rightarrow> int" where
  "findIndex P xs = findIndex_from P xs 0"

text \<open>
  \<^verbatim>\<open>Array.prototype.splice(start, deleteCount, ...items)\<close>, returning the array as it
  is after the call. A negative \<^verbatim>\<open>start\<close> counts from the end, a \<^verbatim>\<open>start\<close> beyond the
  length is the length, and at most the elements from \<^verbatim>\<open>start\<close> on are deleted.
\<close>

definition splice :: "int \<Rightarrow> int \<Rightarrow> 'a list \<Rightarrow> 'a list \<Rightarrow> 'a list" where
  "splice start deleteCount items xs =
     (let len = int (length xs);
          actualStart = (if start < 0 then max (len + start) 0 else min start len);
          actualDeleteCount = min (max deleteCount 0) (len - actualStart)
      in take (nat actualStart) xs @ items @ drop (nat (actualStart + actualDeleteCount)) xs)"

section \<open>The hook useMachines\<close>

text \<open>
  The hook \<^verbatim>\<open>useMachines\<close> (\<^verbatim>\<open>hooks/useMachines.ts\<close>) stands in
  \<^verbatim>\<open>src/data/seedMachines.ts\<close>, lines 45 to 106, after the seed records. One call of an
  operation is one event handler run to completion on the committed state, followed by
  the effect of \<^verbatim>\<open>useLocalStorage\<close> when a new array was set.

  The effect of \<^verbatim>\<open>useLocalStorage\<close>,
  \<^verbatim>\<open>useEffect(() => { localStorage.setItem(key, JSON.stringify(value)); }, [key, value])\<close>,
  with the key \<^verbatim>\<open>'machines'\<close> that \<^verbatim>\<open>useMachines\<close> passes. \<^verbatim>\<open>JSON.stringify\<close> is the
  parameter \<open>stringify\<close>.
\<close>

definition key :: string where
  "key = ''machines''"

definition persist :: "(Machine list \<Rightarrow> string) \<Rightarrow> State \<Rightarrow> State" where
  "persist stringify st =
     st\<lparr>localStorage := (localStorage st)(key \<mapsto> stringify (machines st))\<rparr>"

text \<open>\<^verbatim>\<open>const addMachine = (machine: Machine) => setMachines([...machines, machine]);\<close>\<close>

definition addMachine :: "(Machine list \<Rightarrow> string) \<Rightarrow> State \<Rightarrow> Machine \<Rightarrow> State" where
  "addMachine stringify st m = persist stringify (st\<lparr>machines := machines st @ [m]\<rparr>)"

text \<open>
  \<^verbatim>\<open>const updateMachine = (updated: Machine) =>
    setMachines(machines.map(m => m.id === updated.id ? updated : m));\<close>
\<close>

definition updateMachine :: "(Machine list \<Rightarrow> string) \<Rightarrow> State \<Rightarrow> Machine \<Rightarrow> State" where
  "updateMachine stringify st updated =
     persist stringify
       (st\<lparr>machines := map (\<lambda>m. if id_m m = id_m updated then updated else m) (machines st)\<rparr>)"

text \<open>
  \<^verbatim>\<open>const deleteMachine = (id: string) => {
    setMachines(prev => {
      const index = prev.findIndex(m => m.id === id);
      if (index === -1) return prev;
      setLastDeleted({ machine: prev[index], index });
      return prev.filter(m => m.id !== id);
    });
  };\<close>
  Returning \<^verbatim>\<open>prev\<close> itself sets no new array, so nothing is rendered and no effect runs.
\<close>

definition deleteMachine :: "(Machine list \<Rightarrow> string) \<Rightarrow> State \<Rightarrow> string \<Rightarrow> State" where
  "deleteMachine stringify st i =
     (let prev = machines st;
          idx = findIndex (\<lambda>m. id_m m = i) prev
      in if idx = - 1 then st
         else persist stringify
                (st\<lparr>machines := filter (\<lambda>m. id_m m \<noteq> i) prev,
                    lastDeleted := Some \<lparr>machine = prev ! nat idx, index = idx\<rparr>\<rparr>))"

text \<open>
  \<^verbatim>\<open>const undoDelete = () => {
    if (!lastDeleted) return;
    setMachines(prev => {
      const next = [...prev];
      next.splice(lastDeleted.index, 0, lastDeleted.machine);
      return next;
    });
    setLastDeleted(null);
  };\<close>
\<close>

definition undoDelete :: "(Machine list \<Rightarrow> string) \<Rightarrow> State \<Rightarrow> State" where
  "undoDelete stringify st =
     (case lastDeleted st of
        None \<Rightarrow> st
      | Some ld \<Rightarrow>
          persist stringify
            (st\<lparr>machines := splice (index ld) 0 [machine ld] (machines st),
                lastDeleted := None\<rparr>))"

text \<open>
  The four operations as one type of events, for statements about every operation.
\<close>

datatype Op = Add Machine | Update Machine | Delete string | Undo

fun apply_op :: "(Machine list \<Rightarrow> string) \<Rightarrow> State \<Rightarrow> Op \<Rightarrow> State" where
  "apply_op stringify st (Add m) = addMachine stringify st m"
| "apply_op stringify st (Update m) = updateMachine stringify st m"
| "apply_op stringify st (Delete i) = deleteMachine stringify st i"
| "apply_op stringify st Undo = undoDelete stringify st"

section \<open>String operations of the language\<close>

text \<open>
  \<^verbatim>\<open>String.prototype.includes(searchString)\<close>: whether \<^verbatim>\<open>searchString\<close> occurs in the
  string starting at some position; the empty string occurs in every string.
  It is named \<open>includes_str\<close>, since \<open>includes\<close> is a keyword.
\<close>

fun includes_str :: "jsstring \<Rightarrow> jsstring \<Rightarrow> bool" where
  "includes_str [] t = (t = [])"
| "includes_str (c # s) t = (prefix t (c # s) \<or> includes_str s t)"

text \<open>
  \<^verbatim>\<open>String.prototype.trim\<close> removes white space and line terminators from both ends:
  TAB, LF, VT, FF, CR, the space, the no-break space, U+1680, U+2000 to U+200A, the line
  and paragraph separators U+2028 and U+2029, U+202F, U+205F, U+3000 and U+FEFF.
\<close>

definition isWhiteSpace :: "16 word \<Rightarrow> bool" where
  "isWhiteSpace u =
     (u \<in> {0x9, 0xA, 0xB, 0xC, 0xD, 0x20, 0xA0, 0x1680, 0x2028, 0x2029, 0x202F, 0x205F,
            0x3000, 0xFEFF}
      \<or> (0x2000 \<le> u \<and> u \<le> 0x200A))"

definition trim :: "jsstring \<Rightarrow> jsstring" where
  "trim s = rev (dropWhile isWhiteSpace (rev (dropWhile isWhiteSpace s)))"

section \<open>The projection of App.tsx\<close>

text \<open>
  \<^verbatim>\<open>type StatusFilterValue = MachineStatus | 'ALL';\<close> The value \<^verbatim>\<open>'ALL'\<close> is
  \<open>ALL_filter\<close> here, since \<open>ALL\<close> is the quantifier in HOL's input syntax.
\<close>

datatype StatusFilterValue = ALL_filter | Status MachineStatus

text \<open>
  \<^verbatim>\<open>const filteredMachines = machines.filter(machine => {
    const matchesStatus = statusFilter === 'ALL' || machine.status === statusFilter;
    const matchesSearch = machine.name.toLowerCase().includes(searchQuery.toLowerCase());
    return matchesStatus && matchesSearch;
  });\<close>
  \<^verbatim>\<open>String.prototype.toLowerCase\<close>, the lower-case mapping of the Unicode standard on
  the whole string, is the parameter \<open>toLowerCase\<close>.
\<close>

definition filteredMachines ::
  "(jsstring \<Rightarrow> jsstring) \<Rightarrow> Machine list \<Rightarrow> StatusFilterValue \<Rightarrow> jsstring \<Rightarrow> Machine list" where
  "filteredMachines toLowerCase ms statusFilter searchQuery =
     filter (\<lambda>m.
        let matchesStatus = (statusFilter = ALL_filter \<or> Status (status m) = statusFilter);
            matchesSearch = includes_str (toLowerCase (name m)) (toLowerCase searchQuery)
        in matchesStatus \<and> matchesSearch) ms"

text \<open>
  The two tests of the projection in words: the status filter is \<^verbatim>\<open>'ALL'\<close> or the status
  of the record, and the lower-case form of the name has the lower-case form of the
  search text as a stretch of it.
\<close>

definition lower_contains :: "(jsstring \<Rightarrow> jsstring) \<Rightarrow> jsstring \<Rightarrow> jsstring \<Rightarrow> bool" where
  "lower_contains toLowerCase nm q =
     (\<exists>pre post. toLowerCase nm = pre @ toLowerCase q @ post)"

definition spec_passes ::
  "(jsstring \<Rightarrow> jsstring) \<Rightarrow> StatusFilterValue \<Rightarrow> jsstring \<Rightarrow> Machine \<Rightarrow> bool" where
  "spec_passes toLowerCase statusFilter searchText m =
     ((statusFilter = ALL_filter \<or> statusFilter = Status (status m))
      \<and> lower_contains toLowerCase (name m) searchText)"

section \<open>The form AddMachineForm.tsx\<close>

text \<open>
  The state of the component: \<^verbatim>\<open>name\<close>, \<^verbatim>\<open>status\<close> and \<^verbatim>\<open>error\<close>.
\<close>

record Form =
  form_name :: jsstring
  form_status :: MachineStatus
  form_error :: string

text \<open>
  \<^verbatim>\<open>const submit = () => {
    if (name.trim().length < 2) { setError('Name must be at least 2 characters'); return; }
    onAdd({ id: crypto.randomUUID(), name, status, lastUpdated: new Date() });
    setName(''); setStatus(MachineStatus.Idle); setError('');
  };\<close>
  with \<^verbatim>\<open>onAdd = addMachine\<close> (\<^verbatim>\<open>App.tsx\<close>). The results of \<^verbatim>\<open>crypto.randomUUID()\<close> and
  \<^verbatim>\<open>new Date()\<close> are the parameters \<open>uuid\<close> and \<open>now\<close>.
\<close>

definition submit ::
  "(Machine list \<Rightarrow> string) \<Rightarrow> string \<Rightarrow> int \<Rightarrow> Form \<Rightarrow> State \<Rightarrow> Form \<times> State" where
  "submit stringify uuid now form st =
     (if length (trim (form_name form)) < 2
      then (form\<lparr>form_error := ''Name must be at least 2 characters''\<rparr>, st)
      else (\<lparr>form_name = [], form_status = Idle, form_error = []\<rparr>,
            addMachine stringify st
              \<lparr>id_m = uuid, name = form_name form, status = form_status form,
               lastUpdated = now\<rparr>))"

section \<open>The hook useLocalStorage\<close>

text \<open>
  The hook \<^verbatim>\<open>useLocalStorage\<close> (\<^verbatim>\<open>hooks/useLocalStorage.ts\<close>) stands in
  \<^verbatim>\<open>src/data/seedMachines.ts\<close>, lines 108 to 145.

  The values that \<^verbatim>\<open>JSON.parse\<close> builds, and \<^verbatim>\<open>Date\<close> objects (their time value), which a
  reviver may put in their place. Numbers are of any type \<open>'n\<close>. An object is the list
  of its properties.
\<close>

datatype 'n json =
    JNull
  | JBool bool
  | JNumber 'n
  | JString string
  | JDate int
  | JArray "'n json list"
  | JObject "(string \<times> 'n json) list"

text \<open>The key a reviver is called with: an array index or a property name.\<close>

datatype PropertyKey = Idx nat | Nm string

text \<open>
  \<^verbatim>\<open>const dateReviver = (_key: string, value: unknown) => {
    if (typeof value === 'string') {
      const date = new Date(value);
      if (!isNaN(date.getTime())) { return date; }
    }
    return value;
  };\<close>
  The parsing of a date string by \<^verbatim>\<open>new Date(value)\<close> is the parameter \<open>dateParse\<close>: the
  time value, or \<open>None\<close> where \<^verbatim>\<open>getTime()\<close> is \<^verbatim>\<open>NaN\<close>.
\<close>

definition dateReviver :: "(string \<Rightarrow> int option) \<Rightarrow> PropertyKey \<Rightarrow> 'n json \<Rightarrow> 'n json" where
  "dateReviver dateParse k v =
     (case v of
        JString s \<Rightarrow> (case dateParse s of Some t \<Rightarrow> JDate t | None \<Rightarrow> v)
      | _ \<Rightarrow> v)"

text \<open>
  The second phase of \<^verbatim>\<open>JSON.parse(text, reviver)\<close>: the elements of an array and the
  properties of an object are revived first, each under its key, then the reviver is
  called on the value itself.
\<close>

fun internalize :: "(PropertyKey \<Rightarrow> 'n json \<Rightarrow> 'n json) \<Rightarrow> PropertyKey \<Rightarrow> 'n json \<Rightarrow> 'n json"
  and internalize_elems :: "(PropertyKey \<Rightarrow> 'n json \<Rightarrow> 'n json) \<Rightarrow> nat \<Rightarrow> 'n json list \<Rightarrow> 'n json list"
  and internalize_props ::
    "(PropertyKey \<Rightarrow> 'n json \<Rightarrow> 'n json) \<Rightarrow> (string \<times> 'n json) list \<Rightarrow> (string \<times> 'n json) list"
where
  "internalize reviver k (JArray vs) = reviver k (JArray (internalize_elems reviver 0 vs))"
| "internalize reviver k (JObject ps) = reviver k (JObject (internalize_props reviver ps))"
| "internalize reviver k JNull = reviver k JNull"
| "internalize reviver k (JBool b) = reviver k (JBool b)"
| "internalize reviver k (JNumber n) = reviver k (JNumber n)"
| "internalize reviver k (JString s) = reviver k (JString s)"
| "internalize reviver k (JDate t) = reviver k (JDate t)"
| "internalize_elems reviver i [] = []"
| "internalize_elems reviver i (v # vs) =
     internalize reviver (Idx i) v # internalize_elems reviver (Suc i) vs"
| "internalize_props reviver [] = []"
| "internalize_props reviver ((n, v) # ps) =
     (n, internalize reviver (Nm n) v) # internalize_props reviver ps"

text \<open>
  \<^verbatim>\<open>JSON.parse(text, reviver)\<close>. The first phase, reading the text, is the parameter
  \<open>parseText\<close>; it is \<open>None\<close> where \<^verbatim>\<open>JSON.parse\<close> throws a \<^verbatim>\<open>SyntaxError\<close>.
\<close>

datatype error = SyntaxError

definition JSON_parse ::
  "(string \<Rightarrow> 'n json option) \<Rightarrow> (PropertyKey \<Rightarrow> 'n json \<Rightarrow> 'n json) \<Rightarrow> string \<Rightarrow> error + 'n json" where
  "JSON_parse parseText reviver text =
     (case parseText text of
        None \<Rightarrow> Inl SyntaxError
      | Some v \<Rightarrow> Inr (internalize reviver (Nm []) v))"

text \<open>
  The initialiser of the state of \<^verbatim>\<open>useLocalStorage<T>(key, initialValue, seed?)\<close>:
  \<^verbatim>\<open>const stored = localStorage.getItem(key);
  if (stored) { return JSON.parse(stored, dateReviver); }
  if (seed !== undefined) { localStorage.setItem(key, JSON.stringify(seed)); return seed; }
  return initialValue;\<close>
  \<^verbatim>\<open>getItem\<close> gives \<^verbatim>\<open>null\<close> where the store has nothing under the key; \<^verbatim>\<open>null\<close> and the
  empty string are the two values of \<^verbatim>\<open>stored\<close> that the test \<^verbatim>\<open>if (stored)\<close> rejects.
  The type \<^verbatim>\<open>T\<close> is \<open>'a\<close>. The value that \<^verbatim>\<open>JSON.parse\<close> returns is taken at the type
  \<^verbatim>\<open>T\<close> without a check; \<open>fromJS\<close> is that reading, and \<open>stringify\<close> is
  \<^verbatim>\<open>JSON.stringify\<close>. An absent \<^verbatim>\<open>seed\<close> is \<open>None\<close>. The result is the value returned, or
  the exception thrown, and the store afterwards.
\<close>

definition truthy :: "string option \<Rightarrow> bool" where
  "truthy stored = (case stored of None \<Rightarrow> False | Some s \<Rightarrow> s \<noteq> [])"

definition useLocalStorage_init ::
  "(string \<Rightarrow> 'n json option) \<Rightarrow> (string \<Rightarrow> int option) \<Rightarrow> ('n json \<Rightarrow> 'a) \<Rightarrow> ('a \<Rightarrow> string)
     \<Rightarrow> (string \<rightharpoonup> string) \<Rightarrow> string \<Rightarrow> 'a \<Rightarrow> 'a option
     \<Rightarrow> (error + 'a) \<times> (string \<rightharpoonup> string)" where
  "useLocalStorage_init parseText dateParse fromJS stringify storage k initialValue seed =
     (let stored = storage k
      in if truthy stored
         then ((case JSON_parse parseText (dateReviver dateParse) (the stored) of
                  Inl e \<Rightarrow> Inl e
                | Inr v \<Rightarrow> Inr (fromJS v)),
               storage)
         else (case seed of
                 Some sd \<Rightarrow> (Inr sd, storage(k \<mapsto> stringify sd))
               | None \<Rightarrow> (Inr initialValue, storage)))"

text \<open>
  The first render of a component with \<^verbatim>\<open>useLocalStorage\<close>: the initialiser, and then
  the effect
  \<^verbatim>\<open>useEffect(() => { localStorage.setItem(key, JSON.stringify(value)); }, [key, value])\<close>,
  which runs once after the first render whatever the initialiser did.
\<close>

definition useLocalStorage_mount ::
  "(string \<Rightarrow> 'n json option) \<Rightarrow> (string \<Rightarrow> int option) \<Rightarrow> ('n json \<Rightarrow> 'a) \<Rightarrow> ('a \<Rightarrow> string)
     \<Rightarrow> (string \<rightharpoonup> string) \<Rightarrow> string \<Rightarrow> 'a \<Rightarrow> 'a option
     \<Rightarrow> (error + 'a) \<times> (string \<rightharpoonup> string)" where
  "useLocalStorage_mount parseText dateParse fromJS stringify storage k initialValue seed =
     (case useLocalStorage_init parseText dateParse fromJS stringify storage k initialValue seed of
        (Inl e, storage') \<Rightarrow> (Inl e, storage')
      | (Inr v, storage') \<Rightarrow> (Inr v, storage'(k \<mapsto> stringify v)))"

text \<open>
  The first render of \<^verbatim>\<open>useMachines\<close>:
  \<^verbatim>\<open>useLocalStorage<Machine[]>('machines', [], seedMachines)\<close> and
  \<^verbatim>\<open>useState<...>(null)\<close> for the undo buffer. The six records of
  \<^verbatim>\<open>src/data/seedMachines.ts\<close>, whose ids and date are made when the module loads, are
  the parameter \<open>seedMachines\<close>.
\<close>

definition useMachines_init ::
  "(string \<Rightarrow> 'n json option) \<Rightarrow> (string \<Rightarrow> int option) \<Rightarrow> ('n json \<Rightarrow> Machine list)
     \<Rightarrow> (Machine list \<Rightarrow> string) \<Rightarrow> Machine list \<Rightarrow> (string \<rightharpoonup> string) \<Rightarrow> error + State" where
  "useMachines_init parseText dateParse fromJS stringify seedMachines storage =
     (case useLocalStorage_mount parseText dateParse fromJS stringify storage key []
             (Some seedMachines) of
        (Inl e, _) \<Rightarrow> Inl e
      | (Inr ms, storage') \<Rightarrow>
          Inr \<lparr>machines = ms, lastDeleted = None, localStorage = storage'\<rparr>)"

text \<open>
  The states of the hook: the one after the first render, and those that the four
  operations lead to.
\<close>

inductive reachable ::
  "(string \<Rightarrow> 'n json option) \<Rightarrow> (string \<Rightarrow> int option) \<Rightarrow> ('n json \<Rightarrow> Machine list)
     \<Rightarrow> (Machine list \<Rightarrow> string) \<Rightarrow> Machine list \<Rightarrow> State \<Rightarrow> bool"
  for parseText dateParse fromJS stringify seedMachines
where
  init: "useMachines_init parseText dateParse fromJS stringify seedMachines storage = Inr st
           \<Longrightarrow> reachable parseText dateParse fromJS stringify seedMachines st"
| step: "reachable parseText dateParse fromJS stringify seedMachines st
           \<Longrightarrow> reachable parseText dateParse fromJS stringify seedMachines
                 (apply_op stringify st op)"


section \<open>Concrete data\<close>

text \<open>
  The string value of each member of the enumeration.
\<close>

fun status_value :: "MachineStatus \<Rightarrow> string" where
  "status_value Idle = ''Idle''"
| "status_value Running = ''Running''"
| "status_value Offline = ''Offline''"

text \<open>
  The six seed records of \<^verbatim>\<open>src/data/seedMachines.ts\<close>, with the ids \<open>m1\<close> to \<open>m6\<close> in
  place of the random ones and the time 0.
\<close>

definition seed_example :: "Machine list" where
  "seed_example =
     [\<lparr>id_m = ''m1'', name = units ''Cutter A'', status = Running, lastUpdated = 0\<rparr>,
      \<lparr>id_m = ''m2'', name = units ''Press B'', status = Idle, lastUpdated = 0\<rparr>,
      \<lparr>id_m = ''m3'', name = units ''Welder C'', status = Offline, lastUpdated = 0\<rparr>,
      \<lparr>id_m = ''m4'', name = units ''Lathe D'', status = Running, lastUpdated = 0\<rparr>,
      \<lparr>id_m = ''m5'', name = units ''Drill E'', status = Idle, lastUpdated = 0\<rparr>,
      \<lparr>id_m = ''m6'', name = units ''Robot F'', status = Running, lastUpdated = 0\<rparr>]"

text \<open>
  A serialiser to put in the place of \<^verbatim>\<open>JSON.stringify\<close> at the type \<^verbatim>\<open>Machine[]\<close> in
  concrete runs: it writes the id and the status of each record between brackets.
\<close>

definition example_stringify :: "Machine list \<Rightarrow> string" where
  "example_stringify ms =
     ''['' @ concat (map (\<lambda>m. ''{'' @ id_m m @ '','' @ status_value (status m) @ ''}'') ms) @ '']''"

text \<open>
  In the place of the first phase of \<^verbatim>\<open>JSON.parse\<close>, of \<^verbatim>\<open>new Date\<close> and of the reading
  of a parsed value at the type \<^verbatim>\<open>Machine[]\<close> in concrete runs: a reader of one text, which
  holds one record, and rejects every other text, the empty text among them, as
  \<^verbatim>\<open>JSON.parse\<close> does; a reader of the one date in it; and the record that the parsed
  value is, once its date is revived.
\<close>

definition example_parseText :: "string \<Rightarrow> nat json option" where
  "example_parseText txt =
     (if txt = ''[{id:m2,name:Press B,status:Idle,lastUpdated:2024-01-01T00:00:00.000Z}]''
      then Some (JArray [JObject [(''id'', JString ''m2''),
                                  (''name'', JString ''Press B''),
                                  (''status'', JString ''Idle''),
                                  (''lastUpdated'', JString ''2024-01-01T00:00:00.000Z'')]])
      else None)"

definition example_dateParse :: "string \<Rightarrow> int option" where
  "example_dateParse txt =
     (if txt = ''2024-01-01T00:00:00.000Z'' then Some 1704067200000 else None)"

definition example_fromJS :: "nat json \<Rightarrow> Machine list" where
  "example_fromJS v =
     (if v = JArray [JObject [(''id'', JString ''m2''),
                              (''name'', JString ''Press B''),
                              (''status'', JString ''Idle''),
                              (''lastUpdated'', JDate 1704067200000)]]
      then [\<lparr>id_m = ''m2'', name = units ''Press B'', status = Idle,
             lastUpdated = 1704067200000\<rparr>]
      else [])"

text \<open>The state after the first render on an empty store.\<close>

definition example_state :: State where
  "example_state =
     \<lparr>machines = seed_example, lastDeleted = None,
      localStorage = Map.empty(key \<mapsto> example_stringify seed_example)\<rparr>"

text \<open>
  A state whose collection holds two records with the id \<open>m1\<close>: the state that three
  calls of \<^verbatim>\<open>addMachine\<close>, the third with the id of the first, lead to from an empty
  collection.
\<close>

definition duplicate_state :: State where
  "duplicate_state =
     \<lparr>machines =
        [\<lparr>id_m = ''m1'', name = units ''Cutter A'', status = Running, lastUpdated = 0\<rparr>,
         \<lparr>id_m = ''m2'', name = units ''Press B'', status = Idle, lastUpdated = 0\<rparr>,
         \<lparr>id_m = ''m1'', name = units ''Welder C'', status = Offline, lastUpdated = 0\<rparr>],
      lastDeleted = None,
      localStorage = Map.empty(key \<mapsto> ''[{m1,Running}{m2,Idle}{m1,Offline}]'')\<rparr>"

text \<open>
  A state whose undo buffer remembers an index beyond the end of the collection. The
  four operations lead to no such state; it shows what \<^verbatim>\<open>splice\<close> does there.
\<close>

definition shrunk_state :: State where
  "shrunk_state =
     \<lparr>machines =
        [\<lparr>id_m = ''m1'', name = units ''Cutter A'', status = Running, lastUpdated = 0\<rparr>,
         \<lparr>id_m = ''m2'', name = units ''Press B'', status = Idle, lastUpdated = 0\<rparr>],
      lastDeleted =
        Some \<lparr>machine = \<lparr>id_m = ''m6'', name = units ''Robot F'', status = Running,
                           lastUpdated = 0\<rparr>,
              index = 5\<rparr>,
      localStorage = Map.empty\<rparr>"



text \<open>
  \<^verbatim>\<open>toLowerCase\<close> for concrete runs. It is the lower-case mapping of the Unicode standard
  on the strings made of the letters A to Z and a to z, the digits, the space and the
  Greek letters U+0391 to U+03A9 and U+03B1 to U+03C9: each capital letter goes to the
  letter 32 places further, except that the capital sigma U+03A3 goes to the final
  small sigma U+03C2 where a letter stands before it and no letter after it, and to the
  small sigma U+03C3 elsewhere.
\<close>

definition is_cased :: "16 word \<Rightarrow> bool" where
  "is_cased u =
     ((0x41 \<le> u \<and> u \<le> 0x5A) \<or> (0x61 \<le> u \<and> u \<le> 0x7A)
      \<or> (0x391 \<le> u \<and> u \<le> 0x3A9 \<and> u \<noteq> 0x3A2) \<or> (0x3B1 \<le> u \<and> u \<le> 0x3C9))"

definition simple_lower :: "16 word \<Rightarrow> 16 word" where
  "simple_lower u =
     (if (0x41 \<le> u \<and> u \<le> 0x5A) \<or> (0x391 \<le> u \<and> u \<le> 0x3A9 \<and> u \<noteq> 0x3A2)
      then u + 32 else u)"

fun lower_units :: "bool \<Rightarrow> jsstring \<Rightarrow> jsstring" where
  "lower_units before [] = []"
| "lower_units before (u # us) =
     (if u = 0x3A3
      then (if before \<and> \<not> (case us of [] \<Rightarrow> False | v # _ \<Rightarrow> is_cased v)
            then 0x3C2 else 0x3C3)
      else simple_lower u)
     # lower_units (is_cased u) us"

definition example_toLowerCase :: "jsstring \<Rightarrow> jsstring" where
  "example_toLowerCase s = lower_units False s"

text \<open>
  A record with the name of the three Greek capital letters alpha, sigma, alpha, and the
  search text of the first two of them.
\<close>

definition sigma_machine :: Machine where
  "sigma_machine =
     \<lparr>id_m = ''m7'', name = [0x391, 0x3A3, 0x391], status = Idle, lastUpdated = 0\<rparr>"

definition sigma_query :: jsstring where
  "sigma_query = [0x391, 0x3A3]"

section \<open>An invariant of the undo buffer\<close>

text \<open>
  The remembered index is an index of the collection or its length.
\<close>

definition buffer_in_range :: "State \<Rightarrow> bool" where
  "buffer_in_range st =
     (case lastDeleted st of
        None \<Rightarrow> True
      | Some ld \<Rightarrow> 0 \<le> index ld \<and> index ld \<le> int (length (machines st)))"

section \<open>Properties of the array and string operations\<close>

text \<open>
  \<open>findIndex\<close> counts the elements before the first one that satisfies the predicate.
\<close>

lemma findIndex_from_takeWhile:
  "findIndex_from P xs k =
     (if \<exists>x\<in>set xs. P x then k + int (length (takeWhile (\<lambda>x. \<not> P x) xs)) else - 1)"
  by (induction xs arbitrary: k) auto

lemma findIndex_takeWhile:
  "findIndex P xs =
     (if \<exists>x\<in>set xs. P x then int (length (takeWhile (\<lambda>x. \<not> P x) xs)) else - 1)"
  by (simp add: findIndex_def findIndex_from_takeWhile)

lemma findIndex_absent: "findIndex P xs = - 1 \<longleftrightarrow> (\<forall>x\<in>set xs. \<not> P x)"
  by (auto simp: findIndex_takeWhile)

lemma split_at_first:
  assumes "\<exists>x\<in>set xs. P x"
  shows "\<exists>pre x post. xs = pre @ x # post \<and> P x \<and> (\<forall>y\<in>set pre. \<not> P y)
           \<and> pre = takeWhile (\<lambda>x. \<not> P x) xs"
proof -
  let ?pre = "takeWhile (\<lambda>x. \<not> P x) xs" and ?suf = "dropWhile (\<lambda>x. \<not> P x) xs"
  from assms have ne: "?suf \<noteq> []" by (auto simp: dropWhile_eq_Nil_conv)
  then obtain x post where suf: "?suf = x # post" by (cases ?suf) auto
  have "P x" using hd_dropWhile[OF ne] suf by simp
  moreover have "xs = ?pre @ x # post" using takeWhile_dropWhile_id[of "\<lambda>x. \<not> P x" xs] suf by simp
  moreover have "\<forall>y\<in>set ?pre. \<not> P y" by (auto dest: set_takeWhileD)
  ultimately show ?thesis by blast
qed

text \<open>
  The read \<^verbatim>\<open>prev[index]\<close> in \<^verbatim>\<open>deleteMachine\<close> is within the array: an index that is
  not \<open>-1\<close> is the position of an element that satisfies the predicate.
\<close>

lemma findIndex_in_range:
  assumes "findIndex P xs \<noteq> - 1"
  shows "0 \<le> findIndex P xs \<and> nat (findIndex P xs) < length xs \<and> P (xs ! nat (findIndex P xs))"
proof -
  from assms have ex: "\<exists>x\<in>set xs. P x" by (auto simp: findIndex_takeWhile split: if_splits)
  from split_at_first[OF ex] obtain pre x post
    where xs: "xs = pre @ x # post" and px: "P x" and pre: "pre = takeWhile (\<lambda>x. \<not> P x) xs"
    by blast
  from ex pre have "findIndex P xs = int (length pre)" by (simp add: findIndex_takeWhile)
  moreover have "length pre < length xs" using xs by simp
  moreover have "xs ! length pre = x" using xs by (metis nth_append_length)
  ultimately show ?thesis using px by simp
qed

text \<open>
  Inserting one element with \<open>splice\<close> at a start that is not negative.
\<close>

lemma splice_insert:
  "0 \<le> start \<Longrightarrow>
   splice start 0 [x] xs =
     take (min (nat start) (length xs)) xs @ x # drop (min (nat start) (length xs)) xs"
  by (auto simp: splice_def Let_def min_def max_def)

lemma once_split:
  assumes "length (filter P xs) = 1"
  shows "\<exists>pre x post. xs = pre @ x # post \<and> P x \<and> (\<forall>y\<in>set pre. \<not> P y) \<and> (\<forall>y\<in>set post. \<not> P y)"
proof -
  from assms have "filter P xs \<noteq> []" by auto
  then have "\<exists>x\<in>set xs. P x" by (simp add: filter_empty_conv)
  from split_at_first[OF this] obtain pre x post
    where xs: "xs = pre @ x # post" and px: "P x" and pre: "\<forall>y\<in>set pre. \<not> P y" by blast
  from pre have "filter P pre = []" by (simp add: filter_empty_conv)
  with assms xs px have "filter P post = []" by simp
  then have "\<forall>y\<in>set post. \<not> P y" by (simp add: filter_empty_conv)
  with xs px pre show ?thesis by blast
qed

text \<open>
  \<open>includes_str\<close> is the sublist relation.
\<close>

lemma includes_str_sublist: "includes_str s t \<longleftrightarrow> sublist t s"
  by (induction s) (auto simp: sublist_Cons_right)

text \<open>
  \<open>trim\<close> takes white space, and nothing else, from both ends.
\<close>

lemma trim_decompose:
  "\<exists>pre post. s = pre @ trim s @ post \<and> (\<forall>c\<in>set pre. isWhiteSpace c) \<and> (\<forall>c\<in>set post. isWhiteSpace c)"
proof -
  let ?a = "takeWhile isWhiteSpace s" and ?r = "dropWhile isWhiteSpace s"
  let ?b = "takeWhile isWhiteSpace (rev ?r)"
  have "rev ?r = ?b @ dropWhile isWhiteSpace (rev ?r)" by simp
  then have "?r = rev (dropWhile isWhiteSpace (rev ?r)) @ rev ?b"
    by (metis rev_append rev_rev_ident)
  then have "s = ?a @ trim s @ rev ?b"
    unfolding trim_def by (metis takeWhile_dropWhile_id)
  moreover have "\<forall>c\<in>set ?a. isWhiteSpace c" by (auto dest: set_takeWhileD)
  moreover have "\<forall>c\<in>set (rev ?b). isWhiteSpace c" by (auto dest: set_takeWhileD)
  ultimately show ?thesis by blast
qed

lemma trim_ends:
  "trim s \<noteq> [] \<Longrightarrow> \<not> isWhiteSpace (hd (trim s)) \<and> \<not> isWhiteSpace (last (trim s))"
proof -
  assume ne: "trim s \<noteq> []"
  let ?r = "dropWhile isWhiteSpace s"
  let ?d = "dropWhile isWhiteSpace (rev ?r)"
  from ne have dne: "?d \<noteq> []" by (simp add: trim_def)
  then have "\<not> isWhiteSpace (hd ?d)" by (rule hd_dropWhile)
  then have l: "\<not> isWhiteSpace (last (trim s))" using dne by (simp add: trim_def last_rev)
  have rne: "?r \<noteq> []"
  proof
    assume "?r = []"
    then have "?d = dropWhile isWhiteSpace (rev [])"
      by (rule arg_cong[where f = "\<lambda>z. dropWhile isWhiteSpace (rev z)"])
    with dne show False by simp
  qed
  then have h: "\<not> isWhiteSpace (hd ?r)" by (rule hd_dropWhile)
  have "hd (trim s) = hd ?r"
  proof -
    from dne obtain y ys where d: "?d = y # ys" by (cases ?d) auto
    have "rev ?r = takeWhile isWhiteSpace (rev ?r) @ ?d" by simp
    then have "?r = rev ?d @ rev (takeWhile isWhiteSpace (rev ?r))"
      by (metis rev_append rev_rev_ident)
    then have "hd ?r = hd (rev ?d @ rev (takeWhile isWhiteSpace (rev ?r)))" by simp
    also have "\<dots> = hd (rev ?d)"
    proof (rule hd_append2)
      show "rev ?d \<noteq> []" using dne unfolding rev_is_Nil_conv .
    qed
    finally show ?thesis by (simp add: trim_def)
  qed
  with h l show ?thesis by simp
qed

section \<open>Deleting\<close>

lemma deleteMachine_present:
  assumes "machines st = pre @ x # post" "id_m x = i" "\<forall>y\<in>set pre. id_m y \<noteq> i"
  shows "deleteMachine s st i =
           persist s (st\<lparr>machines := pre @ filter (\<lambda>m. id_m m \<noteq> i) post,
                          lastDeleted := Some \<lparr>machine = x, index = int (length pre)\<rparr>\<rparr>)"
proof -
  have tw: "takeWhile (\<lambda>m. \<not> id_m m = i) (pre @ x # post) = pre"
    using assms by (simp add: takeWhile_append2)
  have fi: "findIndex (\<lambda>m. id_m m = i) (pre @ x # post) = int (length pre)"
    using assms tw by (auto simp: findIndex_takeWhile)
  have fl: "filter (\<lambda>m. id_m m \<noteq> i) pre = pre" using assms by (simp add: filter_id_conv)
  show ?thesis using assms fi fl by (simp add: deleteMachine_def Let_def)
qed

lemma deleteMachine_absent:
  "i \<notin> id_m ` set (machines st) \<Longrightarrow> deleteMachine s st i = st"
proof -
  assume "i \<notin> id_m ` set (machines st)"
  then have "\<forall>m\<in>set (machines st). \<not> id_m m = i" by auto
  then have "findIndex (\<lambda>m. id_m m = i) (machines st) = - 1"
    by (simp add: findIndex_absent)
  then show ?thesis by (simp add: deleteMachine_def)
qed

lemma deleteMachine_found:
  assumes "i \<in> id_m ` set (machines st)"
  shows "\<exists>pre x post. machines st = pre @ x # post \<and> id_m x = i \<and> (\<forall>y\<in>set pre. id_m y \<noteq> i)
           \<and> deleteMachine s st i =
               persist s (st\<lparr>machines := pre @ filter (\<lambda>m. id_m m \<noteq> i) post,
                             lastDeleted := Some \<lparr>machine = x, index = int (length pre)\<rparr>\<rparr>)"
proof -
  from assms have "\<exists>x\<in>set (machines st). id_m x = i" by auto
  from split_at_first[OF this] obtain pre x post
    where ms: "machines st = pre @ x # post" and x: "id_m x = i"
      and pre: "\<forall>y\<in>set pre. id_m y \<noteq> i" by blast
  from deleteMachine_present[OF ms x pre, of s] ms x pre show ?thesis by blast
qed

lemma deleteMachine_machines:
  "machines (deleteMachine s st i) = filter (\<lambda>m. id_m m \<noteq> i) (machines st)"
proof (cases "i \<in> id_m ` set (machines st)")
  case True
  from deleteMachine_found[OF True, of s] obtain pre x post
    where ms: "machines st = pre @ x # post" and x: "id_m x = i"
      and pre: "\<forall>y\<in>set pre. id_m y \<noteq> i"
      and del: "deleteMachine s st i =
               persist s (st\<lparr>machines := pre @ filter (\<lambda>m. id_m m \<noteq> i) post,
                             lastDeleted := Some \<lparr>machine = x, index = int (length pre)\<rparr>\<rparr>)"
    by blast
  from pre have "filter (\<lambda>m. id_m m \<noteq> i) pre = pre" by (simp add: filter_id_conv)
  then show ?thesis using del ms x by (simp add: persist_def)
next
  case False
  then have "\<forall>m\<in>set (machines st). id_m m \<noteq> i" by auto
  then have "filter (\<lambda>m. id_m m \<noteq> i) (machines st) = machines st"
    by (simp add: filter_id_conv)
  then show ?thesis using deleteMachine_absent[OF False] by simp
qed

text \<open>
  The invariant of the undo buffer holds after the first render and after every
  operation: between a deletion and its undo the collection never gets shorter than the
  remembered index, since the only operation that shortens it writes the buffer anew.
\<close>

lemma apply_op_buffer_in_range:
  assumes "buffer_in_range st"
  shows "buffer_in_range (apply_op s st op)"
proof (cases op)
  case (Add m)
  with assms show ?thesis
    by (auto simp: buffer_in_range_def addMachine_def persist_def split: option.splits)
next
  case (Update m)
  with assms show ?thesis
    by (auto simp: buffer_in_range_def updateMachine_def persist_def split: option.splits)
next
  case (Delete i)
  show ?thesis
  proof (cases "i \<in> id_m ` set (machines st)")
    case True
    from deleteMachine_found[OF True, of s] obtain pre x post
      where "deleteMachine s st i =
               persist s (st\<lparr>machines := pre @ filter (\<lambda>m. id_m m \<noteq> i) post,
                             lastDeleted := Some \<lparr>machine = x, index = int (length pre)\<rparr>\<rparr>)"
      by blast
    with Delete show ?thesis by (simp add: buffer_in_range_def persist_def)
  next
    case False
    with Delete assms show ?thesis by (simp add: deleteMachine_absent)
  qed
next
  case Undo
  with assms show ?thesis
    by (auto simp: buffer_in_range_def undoDelete_def persist_def split: option.splits)
qed

lemma reachable_buffer_in_range:
  "reachable pt dp fj s seed st \<Longrightarrow> buffer_in_range st"
proof (induction rule: reachable.induct)
  case (init storage st)
  then show ?case
    by (auto simp: useMachines_init_def buffer_in_range_def split: prod.splits sum.splits)
next
  case (step st op)
  then show ?case by (simp add: apply_op_buffer_in_range)
qed

section \<open>Persistence\<close>

lemma persist_mirrors: "localStorage (persist s st) key = Some (s (machines (persist s st)))"
  by (simp add: persist_def)

lemma apply_op_persist: "apply_op s st op = st \<or> (\<exists>st'. apply_op s st op = persist s st')"
proof (cases op)
  case (Add m)
  then show ?thesis by (auto simp: addMachine_def)
next
  case (Update m)
  then show ?thesis by (auto simp: updateMachine_def)
next
  case (Delete i)
  then show ?thesis by (auto simp: deleteMachine_def Let_def)
next
  case Undo
  then show ?thesis by (auto simp: undoDelete_def split: option.splits)
qed

lemma useLocalStorage_mount_mirrors:
  "useLocalStorage_mount pt dp fj s storage k iv seed = (Inr v, storage')
     \<Longrightarrow> storage' k = Some (s v)"
  by (auto simp: useLocalStorage_mount_def split: prod.splits sum.splits)

lemma useMachines_init_mirrors:
  "useMachines_init pt dp fj s seed storage = Inr st
     \<Longrightarrow> localStorage st key = Some (s (machines st))"
  by (auto simp: useMachines_init_def split: prod.splits sum.splits
           dest: useLocalStorage_mount_mirrors)

lemma reachable_mirrors:
  "reachable pt dp fj s seed st \<Longrightarrow> localStorage st key = Some (s (machines st))"
proof (induction rule: reachable.induct)
  case (init storage st)
  then show ?case by (rule useMachines_init_mirrors)
next
  case (step st op)
  from apply_op_persist[of s st op] show ?case
  proof
    assume "apply_op s st op = st"
    with step.IH show ?thesis by simp
  next
    assume "\<exists>st'. apply_op s st op = persist s st'"
    then obtain st' where "apply_op s st op = persist s st'" by blast
    then show ?thesis by (simp add: persist_mirrors)
  qed
qed

lemma example_mount_empty:
  "useLocalStorage_mount example_parseText example_dateParse example_fromJS example_stringify
     Map.empty key [] (Some seed) = (Inr seed, Map.empty(key \<mapsto> example_stringify seed))"
  by (simp add: useLocalStorage_mount_def useLocalStorage_init_def truthy_def)

section \<open>Deserialisation\<close>


section \<open>A reachable state with an id twice\<close>

text \<open>
  \<^verbatim>\<open>addMachine\<close> compares no ids: starting on an empty store without seed records,
  three additions lead to a collection in which two records carry the same id.
\<close>

lemma duplicate_state_reachable:
  "reachable example_parseText example_dateParse example_fromJS example_stringify []
     duplicate_state"
proof -
  let ?m1 = "\<lparr>id_m = ''m1'', name = units ''Cutter A'', status = Running, lastUpdated = 0\<rparr>"
  let ?m2 = "\<lparr>id_m = ''m2'', name = units ''Press B'', status = Idle, lastUpdated = 0\<rparr>"
  let ?m3 = "\<lparr>id_m = ''m1'', name = units ''Welder C'', status = Offline, lastUpdated = 0\<rparr>"
  let ?st0 = "\<lparr>machines = [], lastDeleted = None,
               localStorage = Map.empty(key \<mapsto> example_stringify [])\<rparr>"
  let ?R = "reachable example_parseText example_dateParse example_fromJS example_stringify []"
  have "useMachines_init example_parseText example_dateParse example_fromJS example_stringify
          [] Map.empty = Inr ?st0"
    by (simp add: useMachines_init_def example_mount_empty)
  then have r0: "?R ?st0"
    by (rule reachable.init)
  from reachable.step[OF r0, of "Add ?m1"]
  have r1: "?R (addMachine example_stringify ?st0 ?m1)"
    by simp
  from reachable.step[OF r1, of "Add ?m2"]
  have r2: "?R (addMachine example_stringify (addMachine example_stringify ?st0 ?m1) ?m2)"
    by simp
  from reachable.step[OF r2, of "Add ?m3"]
  have r3: "?R (addMachine example_stringify
                 (addMachine example_stringify (addMachine example_stringify ?st0 ?m1) ?m2) ?m3)"
    by simp
  have "addMachine example_stringify
          (addMachine example_stringify (addMachine example_stringify ?st0 ?m1) ?m2) ?m3
        = duplicate_state"
    by (simp add: addMachine_def persist_def duplicate_state_def example_stringify_def)
  with r3 show ?thesis by simp
qed

section \<open>The claims\<close>

text \<open>
  C1, as the code has it. For every collection and every id that exactly one record of
  the collection carries, \<^verbatim>\<open>deleteMachine(id)\<close> followed at once by \<^verbatim>\<open>undoDelete()\<close>
  gives back the collection as it was, in content and in order, and leaves the undo
  buffer empty.
\<close>

theorem delete_undo_roundtrip:
  assumes "length (filter (\<lambda>m. id_m m = i) (machines st)) = 1"
  shows "machines (undoDelete s (deleteMachine s st i)) = machines st
       \<and> lastDeleted (undoDelete s (deleteMachine s st i)) = None"
proof -
  from once_split[OF assms] obtain pre x post
    where ms: "machines st = pre @ x # post" and x: "id_m x = i"
      and pre: "\<forall>y\<in>set pre. id_m y \<noteq> i" and post: "\<forall>y\<in>set post. id_m y \<noteq> i"
    by blast
  from post have fp: "filter (\<lambda>m. id_m m \<noteq> i) post = post" by (simp add: filter_id_conv)
  have del: "deleteMachine s st i =
      persist s (st\<lparr>machines := pre @ post,
                    lastDeleted := Some \<lparr>machine = x, index = int (length pre)\<rparr>\<rparr>)"
    using deleteMachine_present[OF ms x pre] fp by simp
  have "splice (int (length pre)) 0 [x] (pre @ post) = pre @ x # post"
    by (simp add: splice_insert)
  then show ?thesis using del ms by (simp add: undoDelete_def persist_def)
qed

text \<open>
  The seed records, deleting and restoring ``Press B''.
\<close>

theorem delete_undo_roundtrip_witness:
  "length (filter (\<lambda>m. id_m m = ''m2'') (machines example_state)) = 1
   \<and> machines (undoDelete example_stringify (deleteMachine example_stringify example_state ''m2''))
       = machines example_state
   \<and> lastDeleted (undoDelete example_stringify (deleteMachine example_stringify example_state ''m2''))
       = None"
proof -
  have h: "length (filter (\<lambda>m. id_m m = ''m2'') (machines example_state)) = 1"
    by (simp add: example_state_def seed_example_def)
  from h delete_undo_roundtrip[OF h, of example_stringify] show ?thesis by blast
qed

text \<open>
  For an id that two records carry the round trip fails: the deletion takes both
  records away and the undo brings back the first one only.
\<close>

theorem delete_undo_duplicate_counterexample:
  "''m1'' \<in> id_m ` set (machines duplicate_state)
   \<and> machines (undoDelete example_stringify (deleteMachine example_stringify duplicate_state ''m1''))
       \<noteq> machines duplicate_state"
  by (simp add: duplicate_state_def deleteMachine_def findIndex_def undoDelete_def persist_def
        splice_def Let_def)

text \<open>
  C2. With an empty undo buffer \<^verbatim>\<open>undoDelete()\<close> changes nothing. With a record and an
  index in the buffer it puts the record into the collection at that index, or at the
  end when the collection is shorter than the index, and empties the buffer.
\<close>

theorem undo_reinserts_clamped:
  "(lastDeleted st = None \<longrightarrow> undoDelete s st = st) \<and>
   (\<forall>ld. lastDeleted st = Some ld \<and> 0 \<le> index ld \<longrightarrow>
      machines (undoDelete s st) =
        take (min (nat (index ld)) (length (machines st))) (machines st)
          @ machine ld # drop (min (nat (index ld)) (length (machines st))) (machines st)
      \<and> lastDeleted (undoDelete s st) = None)"
  by (auto simp: undoDelete_def persist_def splice_insert)

text \<open>
  An empty buffer, and a buffer with the index 5 over a collection of two records.
\<close>

theorem undo_reinserts_clamped_witness:
  "lastDeleted example_state = None
   \<and> undoDelete example_stringify example_state = example_state
   \<and> lastDeleted shrunk_state =
       Some \<lparr>machine = \<lparr>id_m = ''m6'', name = units ''Robot F'', status = Running, lastUpdated = 0\<rparr>,
             index = 5\<rparr>
   \<and> machines (undoDelete example_stringify shrunk_state) =
       machines shrunk_state
         @ [\<lparr>id_m = ''m6'', name = units ''Robot F'', status = Running, lastUpdated = 0\<rparr>]
   \<and> lastDeleted (undoDelete example_stringify shrunk_state) = None"
proof -
  have n: "lastDeleted example_state = None" by (simp add: example_state_def)
  have b: "lastDeleted shrunk_state =
       Some \<lparr>machine = \<lparr>id_m = ''m6'', name = units ''Robot F'', status = Running, lastUpdated = 0\<rparr>,
             index = 5\<rparr>"
    by (simp add: shrunk_state_def)
  have l: "length (machines shrunk_state) = 2" by (simp add: shrunk_state_def)
  show ?thesis
    using n b l undo_reinserts_clamped[of example_state example_stringify]
      undo_reinserts_clamped[of shrunk_state example_stringify]
    by simp
qed

text \<open>
  C3, as the code has it. Whatever \<^verbatim>\<open>toLowerCase\<close> computes, the projection keeps
  exactly the records for which the status filter is \<^verbatim>\<open>'ALL'\<close> or the status of the
  record, and for which the lower-case form of the name contains the lower-case form of
  the search text as a substring; it keeps them in the order of the collection; and the
  empty search text, whose lower-case form is empty, matches every record.
\<close>

theorem projection_correct:
  "filteredMachines toLowerCase ms f q = filter (spec_passes toLowerCase f q) ms
   \<and> subseq (filteredMachines toLowerCase ms f q) ms
   \<and> (toLowerCase [] = [] \<longrightarrow>
        spec_passes toLowerCase f [] m = (f = ALL_filter \<or> f = Status (status m)))"
proof -
  have 1: "filteredMachines toLowerCase ms f q = filter (spec_passes toLowerCase f q) ms"
    unfolding filteredMachines_def spec_passes_def lower_contains_def Let_def
    by (rule filter_cong) (auto simp: includes_str_sublist sublist_def)
  have 2: "subseq (filteredMachines toLowerCase ms f q) ms"
    by (simp add: filteredMachines_def)
  have 3: "spec_passes toLowerCase f [] m = (f = ALL_filter \<or> f = Status (status m))"
    if "toLowerCase [] = []"
  proof -
    have "toLowerCase (name m) = [] @ toLowerCase [] @ toLowerCase (name m)"
      using that by simp
    then have "lower_contains toLowerCase (name m) []"
      unfolding lower_contains_def by blast
    then show ?thesis by (simp add: spec_passes_def)
  qed
  from 1 2 3 show ?thesis by blast
qed

text \<open>
  The seed records under the filter Running and the text ``cUt'', under the text
  ``zzz'', and under no restriction.
\<close>

theorem projection_correct_witness:
  "example_toLowerCase [] = []
   \<and> filter (spec_passes example_toLowerCase (Status Running) (units ''cUt'')) seed_example
     = [\<lparr>id_m = ''m1'', name = units ''Cutter A'', status = Running, lastUpdated = 0\<rparr>]
   \<and> filter (spec_passes example_toLowerCase ALL_filter (units ''zzz'')) seed_example = []
   \<and> filter (spec_passes example_toLowerCase ALL_filter []) seed_example = seed_example"
proof -
  have 0: "example_toLowerCase [] = []" by (simp add: example_toLowerCase_def)
  have 1: "filteredMachines example_toLowerCase seed_example (Status Running) (units ''cUt'')
             = [\<lparr>id_m = ''m1'', name = units ''Cutter A'', status = Running, lastUpdated = 0\<rparr>]"
    by code_simp
  have 2: "filteredMachines example_toLowerCase seed_example ALL_filter (units ''zzz'') = []"
    by code_simp
  have 3: "filteredMachines example_toLowerCase seed_example ALL_filter [] = seed_example"
    by code_simp
  from 0 1 2 3
    projection_correct[of example_toLowerCase seed_example "Status Running" "units ''cUt''"]
    projection_correct[of example_toLowerCase seed_example ALL_filter "units ''zzz''"]
    projection_correct[of example_toLowerCase seed_example ALL_filter "[]"]
  show ?thesis by simp
qed

text \<open>
  The search text of the two Greek capital letters alpha, sigma is a stretch of the name
  alpha, sigma, alpha, letter for letter, and the status filter is \<^verbatim>\<open>'ALL'\<close>; yet the
  projection leaves the record out: at the end of the search text the sigma becomes the
  final small sigma, within the name it becomes the small sigma.
\<close>

theorem projection_final_sigma_counterexample:
  "sublist sigma_query (name sigma_machine)
   \<and> example_toLowerCase (name sigma_machine) = [0x3B1, 0x3C3, 0x3B1]
   \<and> example_toLowerCase sigma_query = [0x3B1, 0x3C2]
   \<and> filteredMachines example_toLowerCase [sigma_machine] ALL_filter sigma_query = []"
proof -
  have "name sigma_machine = [] @ sigma_query @ [0x391]"
    by (simp add: sigma_machine_def sigma_query_def)
  then have 1: "sublist sigma_query (name sigma_machine)"
    unfolding sublist_def by blast
  have 2: "example_toLowerCase (name sigma_machine) = [0x3B1, 0x3C3, 0x3B1]"
    by code_simp
  have 3: "example_toLowerCase sigma_query = [0x3B1, 0x3C2]"
    by code_simp
  have 4: "filteredMachines example_toLowerCase [sigma_machine] ALL_filter sigma_query = []"
    by code_simp
  from 1 2 3 4 show ?thesis by blast
qed

text \<open>
  C4. A submission whose name has fewer than two characters after trimming changes
  neither the collection nor anything else of the state, and sets the error message of
  the form; a submission whose trimmed name has two characters or more appends the
  record to the collection and resets the form.
\<close>

theorem submit_validates:
  "(length (trim (form_name form)) < 2 \<longrightarrow>
      submit s uuid now form st =
        (form\<lparr>form_error := ''Name must be at least 2 characters''\<rparr>, st))
   \<and> (2 \<le> length (trim (form_name form)) \<longrightarrow>
        machines (snd (submit s uuid now form st)) =
          machines st @ [\<lparr>id_m = uuid, name = form_name form, status = form_status form,
                           lastUpdated = now\<rparr>]
        \<and> lastDeleted (snd (submit s uuid now form st)) = lastDeleted st
        \<and> fst (submit s uuid now form st) = \<lparr>form_name = [], form_status = Idle, form_error = []\<rparr>)"
  by (simp add: submit_def addMachine_def persist_def)

text \<open>
  The names `` A '' and ``AB''.
\<close>

theorem submit_validates_witness:
  "length (trim (units '' A '')) < 2
   \<and> submit example_stringify ''m7'' 1 \<lparr>form_name = units '' A '', form_status = Running, form_error = []\<rparr>
        example_state
       = (\<lparr>form_name = units '' A '', form_status = Running,
           form_error = ''Name must be at least 2 characters''\<rparr>, example_state)
   \<and> 2 \<le> length (trim (units ''AB''))
   \<and> machines (snd (submit example_stringify ''m7'' 1
         \<lparr>form_name = units ''AB'', form_status = Running, form_error = []\<rparr> example_state))
       = machines example_state
           @ [\<lparr>id_m = ''m7'', name = units ''AB'', status = Running, lastUpdated = 1\<rparr>]"
proof -
  have a: "length (trim (units '' A '')) < 2" by code_simp
  have b: "2 \<le> length (trim (units ''AB''))" by code_simp
  from a b
    submit_validates[of "\<lparr>form_name = units '' A '', form_status = Running, form_error = []\<rparr>"
      example_stringify "''m7''" 1 example_state]
    submit_validates[of "\<lparr>form_name = units ''AB'', form_status = Running, form_error = []\<rparr>"
      example_stringify "''m7''" 1 example_state]
  show ?thesis by simp
qed

text \<open>
  C5. An operation that changes the collection writes the serialisation of the new
  collection under the key; and in every state of the hook, from the first render on
  and after every operation, the value under the key is the serialisation of the
  collection in memory.
\<close>

theorem persisted_mirrors_collection:
  "(machines (apply_op s st op) \<noteq> machines st \<longrightarrow>
      localStorage (apply_op s st op) key = Some (s (machines (apply_op s st op))))
   \<and> (reachable pt dp fj s seed st \<longrightarrow>
        localStorage st key = Some (s (machines st))
        \<and> localStorage (apply_op s st op) key = Some (s (machines (apply_op s st op))))"
proof -
  have 1: "localStorage (apply_op s st op) key = Some (s (machines (apply_op s st op)))"
    if "machines (apply_op s st op) \<noteq> machines st"
  proof -
    from that have "apply_op s st op \<noteq> st" by auto
    with apply_op_persist[of s st op] obtain st' where "apply_op s st op = persist s st'"
      by blast
    then show ?thesis by (simp add: persist_mirrors)
  qed
  have 2: "localStorage st key = Some (s (machines st))" if "reachable pt dp fj s seed st"
    using that by (rule reachable_mirrors)
  have 3: "localStorage (apply_op s st op) key = Some (s (machines (apply_op s st op)))"
    if "reachable pt dp fj s seed st"
    using reachable.step[OF that] by (rule reachable_mirrors)
  from 1 2 3 show ?thesis by blast
qed

text \<open>
  The state after the first render on an empty store, and the deletion of ``Press B''.
\<close>

theorem persisted_mirrors_collection_witness:
  "machines (apply_op example_stringify example_state (Delete ''m2'')) \<noteq> machines example_state
   \<and> reachable example_parseText example_dateParse example_fromJS example_stringify seed_example
        example_state
   \<and> localStorage (apply_op example_stringify example_state (Delete ''m2'')) key
       = Some (example_stringify (machines (apply_op example_stringify example_state (Delete ''m2''))))
   \<and> localStorage example_state key = Some (example_stringify (machines example_state))"
proof -
  have c: "machines (apply_op example_stringify example_state (Delete ''m2'')) \<noteq> machines example_state"
    by (simp add: deleteMachine_machines example_state_def seed_example_def)
  have r: "reachable example_parseText example_dateParse example_fromJS example_stringify
             seed_example example_state"
    by (rule reachable.init[where storage = Map.empty])
       (simp add: useMachines_init_def example_mount_empty example_state_def)
  from c r persisted_mirrors_collection[of example_stringify example_state "Delete ''m2''"
      example_parseText example_dateParse example_fromJS seed_example]
  show ?thesis by blast
qed




text \<open>
  C7. For an id that no record of the collection carries, \<^verbatim>\<open>deleteMachine(id)\<close> leaves
  the whole state as it is, undo buffer included; and \<^verbatim>\<open>updateMachine(record)\<close> with
  such a record leaves the collection and the undo buffer as they are, writing the same
  collection to the store again.
\<close>

theorem absent_id_noop:
  "(i \<notin> id_m ` set (machines st) \<longrightarrow> deleteMachine s st i = st) \<and>
   (id_m u \<notin> id_m ` set (machines st) \<longrightarrow>
      machines (updateMachine s st u) = machines st
      \<and> lastDeleted (updateMachine s st u) = lastDeleted st
      \<and> updateMachine s st u = persist s st)"
proof -
  have "map (\<lambda>m. if id_m m = id_m u then u else m) (machines st) = machines st"
    if "id_m u \<notin> id_m ` set (machines st)"
  proof (rule map_idI)
    fix x assume "x \<in> set (machines st)"
    then have "id_m x \<in> id_m ` set (machines st)" by (rule imageI)
    with that have "id_m x \<noteq> id_m u" by metis
    then show "(if id_m x = id_m u then u else x) = x" by simp
  qed
  then show ?thesis
    by (auto simp: deleteMachine_absent updateMachine_def persist_def)
qed

text \<open>
  The seed records and the id ``m9''.
\<close>

theorem absent_id_noop_witness:
  "''m9'' \<notin> id_m ` set (machines example_state)
   \<and> deleteMachine example_stringify example_state ''m9'' = example_state
   \<and> machines (updateMachine example_stringify example_state
        \<lparr>id_m = ''m9'', name = units ''Saw G'', status = Idle, lastUpdated = 1\<rparr>) = machines example_state
   \<and> lastDeleted (updateMachine example_stringify example_state
        \<lparr>id_m = ''m9'', name = units ''Saw G'', status = Idle, lastUpdated = 1\<rparr>) = lastDeleted example_state"
proof -
  have h: "''m9'' \<notin> id_m ` set (machines example_state)"
    by (simp add: example_state_def seed_example_def)
  from h absent_id_noop[of "''m9''" example_state example_stringify
        "\<lparr>id_m = ''m9'', name = units ''Saw G'', status = Idle, lastUpdated = 1\<rparr>"]
  show ?thesis by (simp add: persist_def)
qed

text \<open>
  C8. \<^verbatim>\<open>updateMachine(record)\<close> changes neither the length of the collection nor the ids
  in it, position by position; at each position it puts the record where the id is
  that of the record, and leaves the element otherwise.
\<close>

theorem update_preserves_ids:
  "length (machines (updateMachine s st u)) = length (machines st)
   \<and> map id_m (machines (updateMachine s st u)) = map id_m (machines st)
   \<and> id_m ` set (machines (updateMachine s st u)) = id_m ` set (machines st)
   \<and> (\<forall>j<length (machines st).
         machines (updateMachine s st u) ! j =
           (if id_m (machines st ! j) = id_m u then u else machines st ! j))"
proof -
  have m: "map id_m (machines (updateMachine s st u)) = map id_m (machines st)"
    by (simp add: updateMachine_def persist_def)
  have "set (map id_m (machines (updateMachine s st u))) = set (map id_m (machines st))"
    by (simp only: m)
  then have "id_m ` set (machines (updateMachine s st u)) = id_m ` set (machines st)"
    by simp
  moreover have "length (machines (updateMachine s st u)) = length (machines st)"
    by (simp add: updateMachine_def persist_def)
  moreover have "\<forall>j<length (machines st).
         machines (updateMachine s st u) ! j =
           (if id_m (machines st ! j) = id_m u then u else machines st ! j)"
    by (simp add: updateMachine_def persist_def)
  ultimately show ?thesis using m by blast
qed

text \<open>
  The seed records, updating ``Press B'' at position 1.
\<close>

theorem update_preserves_ids_witness:
  "(1::nat) < length (machines example_state)
   \<and> id_m (machines example_state ! 1) = ''m2''
   \<and> machines (updateMachine example_stringify example_state
        \<lparr>id_m = ''m2'', name = units ''Press B2'', status = Running, lastUpdated = 1\<rparr>) ! 1
       = \<lparr>id_m = ''m2'', name = units ''Press B2'', status = Running, lastUpdated = 1\<rparr>
   \<and> length (machines (updateMachine example_stringify example_state
        \<lparr>id_m = ''m2'', name = units ''Press B2'', status = Running, lastUpdated = 1\<rparr>)) = 6
   \<and> map id_m (machines (updateMachine example_stringify example_state
        \<lparr>id_m = ''m2'', name = units ''Press B2'', status = Running, lastUpdated = 1\<rparr>))
       = [''m1'', ''m2'', ''m3'', ''m4'', ''m5'', ''m6'']"
proof -
  have l: "length (machines example_state) = 6" by (simp add: example_state_def seed_example_def)
  have i: "id_m (machines example_state ! 1) = ''m2''"
    by (simp add: example_state_def seed_example_def)
  have m: "map id_m (machines example_state) = [''m1'', ''m2'', ''m3'', ''m4'', ''m5'', ''m6'']"
    by (simp add: example_state_def seed_example_def)
  show ?thesis
    using l i m update_preserves_ids[of example_stringify example_state
        "\<lparr>id_m = ''m2'', name = units ''Press B2'', status = Running, lastUpdated = 1\<rparr>"]
    by simp
qed

text \<open>
  C9. After deleting an id and then another id, both in the collection, the undo
  buffer holds a record of the second id; \<^verbatim>\<open>undoDelete()\<close> then brings back that record
  and no record of the first id, empties the buffer, and a further \<^verbatim>\<open>undoDelete()\<close>
  changes nothing. Where one record carries the second id, the collection is then the
  original one without the records of the first id.
\<close>

theorem second_delete_overwrites_buffer:
  assumes "a \<noteq> b" "a \<in> id_m ` set (machines st)" "b \<in> id_m ` set (machines st)"
  shows "let st2 = deleteMachine s (deleteMachine s st a) b; st3 = undoDelete s st2
         in (\<exists>ld. lastDeleted st2 = Some ld \<and> id_m (machine ld) = b
                 \<and> machine ld \<in> set (machines st)
                 \<and> set (machines st3) =
                     insert (machine ld) {m \<in> set (machines st). id_m m \<noteq> a \<and> id_m m \<noteq> b})
          \<and> a \<notin> id_m ` set (machines st3)
          \<and> b \<in> id_m ` set (machines st3)
          \<and> lastDeleted st3 = None
          \<and> undoDelete s st3 = st3
          \<and> (length (filter (\<lambda>m. id_m m = b) (machines st)) = 1 \<longrightarrow>
                machines st3 = filter (\<lambda>m. id_m m \<noteq> a) (machines st))"
proof -
  define st1 where "st1 = deleteMachine s st a"
  have ms1: "machines st1 = filter (\<lambda>m. id_m m \<noteq> a) (machines st)"
    by (simp add: st1_def deleteMachine_machines)
  from assms(1,3) have "b \<in> id_m ` set (machines st1)" by (auto simp: ms1)
  from deleteMachine_found[OF this, of s] obtain pre x post
    where split: "machines st1 = pre @ x # post" and x: "id_m x = b"
      and pre: "\<forall>y\<in>set pre. id_m y \<noteq> b"
      and del: "deleteMachine s st1 b =
               persist s (st1\<lparr>machines := pre @ filter (\<lambda>m. id_m m \<noteq> b) post,
                             lastDeleted := Some \<lparr>machine = x, index = int (length pre)\<rparr>\<rparr>)"
    by blast
  define st2 where "st2 = deleteMachine s st1 b"
  define st3 where "st3 = undoDelete s st2"
  have ld2: "lastDeleted st2 = Some \<lparr>machine = x, index = int (length pre)\<rparr>"
    by (simp add: st2_def del persist_def)
  have ms2: "machines st2 = pre @ filter (\<lambda>m. id_m m \<noteq> b) post"
    by (simp add: st2_def del persist_def)
  have sp: "splice (int (length pre)) 0 [x] (pre @ filter (\<lambda>m. id_m m \<noteq> b) post)
              = pre @ x # filter (\<lambda>m. id_m m \<noteq> b) post"
    by (simp add: splice_insert)
  have ms3: "machines st3 = pre @ x # filter (\<lambda>m. id_m m \<noteq> b) post"
    using ld2 ms2 sp by (simp add: st3_def undoDelete_def persist_def)
  have ld3: "lastDeleted st3 = None"
    using ld2 by (simp add: st3_def undoDelete_def persist_def)
  have again: "undoDelete s st3 = st3"
    using ld3 by (simp add: undoDelete_def)
  have "set (pre @ x # post) = set (filter (\<lambda>m. id_m m \<noteq> a) (machines st))"
    using split ms1 by simp
  then have mem: "(m \<in> set pre \<or> m = x \<or> m \<in> set post) \<longleftrightarrow> (m \<in> set (machines st) \<and> id_m m \<noteq> a)" for m
    by auto
  have xin: "x \<in> set (machines st)" and xa: "id_m x \<noteq> a" using mem[of x] by auto
  have set3: "set (machines st3) = insert x {m \<in> set (machines st). id_m m \<noteq> a \<and> id_m m \<noteq> b}"
  proof (rule set_eqI)
    fix m
    show "m \<in> set (machines st3) \<longleftrightarrow> m \<in> insert x {m \<in> set (machines st). id_m m \<noteq> a \<and> id_m m \<noteq> b}"
      using mem[of m] pre x by (auto simp: ms3)
  qed
  have noa: "a \<notin> id_m ` set (machines st3)"
    using set3 xa by auto
  have hasb: "b \<in> id_m ` set (machines st3)"
    using set3 x by auto
  have uniq: "machines st3 = filter (\<lambda>m. id_m m \<noteq> a) (machines st)"
    if one: "length (filter (\<lambda>m. id_m m = b) (machines st)) = 1"
  proof -
    have "filter (\<lambda>m. id_m m = b) (machines st1) = filter (\<lambda>m. id_m m = b) (machines st)"
      using assms(1) by (auto simp: ms1 intro: filter_cong)
    with one have "length (filter (\<lambda>m. id_m m = b) (pre @ x # post)) = 1"
      by (simp add: split)
    with x have "filter (\<lambda>m. id_m m = b) post = []" by simp
    then have "filter (\<lambda>m. id_m m \<noteq> b) post = post"
      by (simp add: filter_empty_conv filter_id_conv)
    then show ?thesis using ms3 split ms1 by simp
  qed
  have "lastDeleted st2 = Some \<lparr>machine = x, index = int (length pre)\<rparr>
        \<and> id_m (machine \<lparr>machine = x, index = int (length pre)\<rparr>) = b
        \<and> machine \<lparr>machine = x, index = int (length pre)\<rparr> \<in> set (machines st)
        \<and> set (machines st3) =
             insert (machine \<lparr>machine = x, index = int (length pre)\<rparr>)
               {m \<in> set (machines st). id_m m \<noteq> a \<and> id_m m \<noteq> b}"
    using ld2 x xin set3 by simp
  then have ex: "\<exists>ld. lastDeleted st2 = Some ld \<and> id_m (machine ld) = b
                 \<and> machine ld \<in> set (machines st)
                 \<and> set (machines st3) =
                     insert (machine ld) {m \<in> set (machines st). id_m m \<noteq> a \<and> id_m m \<noteq> b}"
    by blast
  show ?thesis
    unfolding Let_def st1_def[symmetric] st2_def[symmetric] st3_def[symmetric]
    using ex noa hasb ld3 again uniq by blast
qed

text \<open>
  The seed records, deleting ``Press B'' and then ``Lathe D''.
\<close>

theorem second_delete_overwrites_buffer_witness:
  "''m2'' \<noteq> ''m4''
   \<and> ''m2'' \<in> id_m ` set (machines example_state)
   \<and> ''m4'' \<in> id_m ` set (machines example_state)
   \<and> length (filter (\<lambda>m. id_m m = ''m4'') (machines example_state)) = 1
   \<and> machines (undoDelete example_stringify
        (deleteMachine example_stringify (deleteMachine example_stringify example_state ''m2'') ''m4''))
       = filter (\<lambda>m. id_m m \<noteq> ''m2'') (machines example_state)
   \<and> lastDeleted (undoDelete example_stringify
        (deleteMachine example_stringify (deleteMachine example_stringify example_state ''m2'') ''m4''))
       = None"
proof -
  have ne: "''m2'' \<noteq> ''m4''" by simp
  have a: "''m2'' \<in> id_m ` set (machines example_state)"
    by (simp add: example_state_def seed_example_def)
  have b: "''m4'' \<in> id_m ` set (machines example_state)"
    by (simp add: example_state_def seed_example_def)
  have one: "length (filter (\<lambda>m. id_m m = ''m4'') (machines example_state)) = 1"
    by (simp add: example_state_def seed_example_def)
  from second_delete_overwrites_buffer[OF ne a b, of example_stringify]
  have "machines (undoDelete example_stringify
        (deleteMachine example_stringify (deleteMachine example_stringify example_state ''m2'') ''m4''))
       = filter (\<lambda>m. id_m m \<noteq> ''m2'') (machines example_state)
   \<and> lastDeleted (undoDelete example_stringify
        (deleteMachine example_stringify (deleteMachine example_stringify example_state ''m2'') ''m4''))
       = None"
    unfolding Let_def using one by blast
  with ne a b one show ?thesis by blast
qed

text \<open>
  C10. \<^verbatim>\<open>deleteMachine(id)\<close> on a collection with the id takes away every record of that
  id, also when several carry it, and the undo buffer holds the first such record and
  its index.
\<close>

theorem delete_removes_all_matches:
  assumes "i \<in> id_m ` set (machines st)"
  shows "machines (deleteMachine s st i) = filter (\<lambda>m. id_m m \<noteq> i) (machines st)
       \<and> (\<forall>m\<in>set (machines (deleteMachine s st i)). id_m m \<noteq> i)
       \<and> (\<exists>k<length (machines st).
             lastDeleted (deleteMachine s st i) = Some \<lparr>machine = machines st ! k, index = int k\<rparr>
             \<and> id_m (machines st ! k) = i
             \<and> (\<forall>j<k. id_m (machines st ! j) \<noteq> i))"
proof -
  from assms have "\<exists>x\<in>set (machines st). id_m x = i" by auto
  from split_at_first[OF this] obtain pre x post
    where ms: "machines st = pre @ x # post" and x: "id_m x = i"
      and pre: "\<forall>y\<in>set pre. id_m y \<noteq> i" by blast
  from pre have fp: "filter (\<lambda>m. id_m m \<noteq> i) pre = pre" by (simp add: filter_id_conv)
  note del = deleteMachine_present[OF ms x pre, of s]
  have 1: "machines (deleteMachine s st i) = filter (\<lambda>m. id_m m \<noteq> i) (machines st)"
    using del ms x fp by (simp add: persist_def)
  have 2: "\<forall>m\<in>set (machines (deleteMachine s st i)). id_m m \<noteq> i"
    by (simp add: 1)
  have "length pre < length (machines st)" using ms by simp
  moreover have "lastDeleted (deleteMachine s st i) =
      Some \<lparr>machine = machines st ! length pre, index = int (length pre)\<rparr>"
    using del ms by (simp add: persist_def)
  moreover have "id_m (machines st ! length pre) = i" using ms x by simp
  moreover have "\<forall>j<length pre. id_m (machines st ! j) \<noteq> i"
    using ms pre by (simp add: nth_append)
  ultimately show ?thesis using 1 2 by blast
qed

text \<open>
  The collection with two records of the id ``m1''.
\<close>

theorem delete_removes_all_matches_witness:
  "''m1'' \<in> id_m ` set (machines duplicate_state)
   \<and> 1 < length (filter (\<lambda>m. id_m m = ''m1'') (machines duplicate_state))
   \<and> machines (deleteMachine example_stringify duplicate_state ''m1'')
       = [\<lparr>id_m = ''m2'', name = units ''Press B'', status = Idle, lastUpdated = 0\<rparr>]
   \<and> lastDeleted (deleteMachine example_stringify duplicate_state ''m1'')
       = Some \<lparr>machine = \<lparr>id_m = ''m1'', name = units ''Cutter A'', status = Running, lastUpdated = 0\<rparr>,
               index = 0\<rparr>"
proof -
  have h: "''m1'' \<in> id_m ` set (machines duplicate_state)"
    by (simp add: duplicate_state_def)
  have d: "1 < length (filter (\<lambda>m. id_m m = ''m1'') (machines duplicate_state))"
    by (simp add: duplicate_state_def)
  have f: "filter (\<lambda>m. id_m m \<noteq> ''m1'') (machines duplicate_state)
             = [\<lparr>id_m = ''m2'', name = units ''Press B'', status = Idle, lastUpdated = 0\<rparr>]"
    by (simp add: duplicate_state_def)
  from delete_removes_all_matches[OF h, of example_stringify] obtain k
    where k: "k < length (machines duplicate_state)"
      and ld: "lastDeleted (deleteMachine example_stringify duplicate_state ''m1'')
                 = Some \<lparr>machine = machines duplicate_state ! k, index = int k\<rparr>"
      and hit: "id_m (machines duplicate_state ! k) = ''m1''"
      and first: "\<forall>j<k. id_m (machines duplicate_state ! j) \<noteq> ''m1''"
      and ms: "machines (deleteMachine example_stringify duplicate_state ''m1'')
                 = filter (\<lambda>m. id_m m \<noteq> ''m1'') (machines duplicate_state)"
    by blast
  have "id_m (machines duplicate_state ! 0) = ''m1''" by (simp add: duplicate_state_def)
  with first have "k = 0" by (metis not_gr_zero)
  with ld have "lastDeleted (deleteMachine example_stringify duplicate_state ''m1'')
       = Some \<lparr>machine = \<lparr>id_m = ''m1'', name = units ''Cutter A'', status = Running, lastUpdated = 0\<rparr>,
               index = 0\<rparr>"
    by (simp add: duplicate_state_def)
  with h d f ms show ?thesis by simp
qed

end
